theory Spec2Isabelle
  imports Main
begin

section \<open>The parsed chapter: the BeautifulSoup tree\<close>

text \<open>
  \<^verbatim>\<open>server.py\<close> hands a chapter's HTML to \<^verbatim>\<open>BeautifulSoup(html, "html.parser")\<close> and
  works on the resulting tree. A page element is either a tag (name, attribute dictionary,
  contents) or a string-like leaf (text, comment, ...), which has no name and no
  attributes. The attribute dictionary is kept as an association list in source order and
  read with \<open>map_of\<close>.
\<close>

datatype node =
    Element string "(string \<times> string) list" "node list"
  | Text string

fun node_name :: "node \<Rightarrow> string option" where
  \<comment> \<open>\<^verbatim>\<open>getattr(node, "name", None)\<close>\<close>
  "node_name (Element t as cs) = Some t"
| "node_name (Text s) = None"

fun attrs :: "node \<Rightarrow> (string \<times> string) list" where
  "attrs (Element t as cs) = as"
| "attrs (Text s) = []"

fun contents :: "node \<Rightarrow> node list" where
  "contents (Element t as cs) = cs"
| "contents (Text s) = []"

fun is_tag :: "node \<Rightarrow> bool" where
  "is_tag (Element t as cs) = True"
| "is_tag (Text s) = False"

text \<open>
  The library navigates from a page element to its following siblings and to its parent.
  A page element in its place in the tree is a \<open>located\<close> value: the element, the
  siblings after it in its parent's contents, and the parent in its own place
  (\<open>None\<close> for a top-level element, whose parent is the \<^verbatim>\<open>BeautifulSoup\<close> object
  itself; that object is named \<^verbatim>\<open>[document]\<close>, so it never is a heading).
\<close>

datatype located = Located (here: node) (next_siblings: "node list") (parent: "located option")

fun parents :: "located \<Rightarrow> located list" where
  \<comment> \<open>\<^verbatim>\<open>PageElement.parents\<close>: the ancestors, nearest first\<close>
  "parents (Located n sibs None) = []"
| "parents (Located n sibs (Some p)) = p # parents p"

function descendants_from :: "located option \<Rightarrow> node list \<Rightarrow> located list" where
  \<comment> \<open>\<^verbatim>\<open>Tag.descendants\<close>: every page element below, in document order (pre-order)\<close>
  "descendants_from par [] = []"
| "descendants_from par (n # rest) =
     Located n rest par
       # descendants_from (Some (Located n rest par)) (contents n)
       @ descendants_from par rest"
  by pat_completeness auto
termination
proof (relation "measure (\<lambda>(par, ns). size_list size ns)")
  fix par :: "located option" and n :: node and rest :: "node list"
  show "((Some (Located n rest par), contents n), (par, n # rest))
          \<in> measure (\<lambda>(par, ns). size_list size ns)"
    by (cases n) simp_all
qed simp_all

definition descendants :: "node list \<Rightarrow> located list" where
  \<comment> \<open>the descendants of the \<^verbatim>\<open>BeautifulSoup\<close> object whose contents are the given list\<close>
  "descendants soup = descendants_from None soup"

definition find_first :: "(node \<Rightarrow> bool) \<Rightarrow> node list \<Rightarrow> located option" where
  \<comment> \<open>\<^verbatim>\<open>soup.find(...)\<close>: the first tag below the root, in document order, that matches\<close>
  "find_first P soup = List.find (\<lambda>l. is_tag (here l) \<and> P (here l)) (descendants soup)"

definition find_parent :: "(node \<Rightarrow> bool) \<Rightarrow> located \<Rightarrow> located option" where
  \<comment> \<open>\<^verbatim>\<open>target.find_parent(...)\<close>: the nearest strict ancestor that matches\<close>
  "find_parent P l = List.find (\<lambda>p. P (here p)) (parents l)"

definition has_attr :: "string \<Rightarrow> string \<Rightarrow> node \<Rightarrow> bool" where
  \<comment> \<open>the keyword match of \<^verbatim>\<open>find\<close> against a non-empty string: the attribute is present
      and its value is that string\<close>
  "has_attr k v n = (map_of (attrs n) k = Some v)"

section \<open>Subsection extraction\<close>

definition heading_levels :: "string set" where
  "heading_levels = {''h1'', ''h2'', ''h3'', ''h4'', ''h5'', ''h6''}"

definition py_int_digit :: "char \<Rightarrow> int" where
  \<comment> \<open>\<^verbatim>\<open>int(c)\<close> for a one-character string holding a decimal digit\<close>
  "py_int_digit c = int (of_char c) - 48"

definition get_heading_level :: "node \<Rightarrow> int option" where
  "get_heading_level n =
     (case node_name n of
        Some node_name' \<Rightarrow>
          if node_name' \<in> heading_levels then Some (py_int_digit (node_name' ! 1)) else None
      | None \<Rightarrow> None)"

definition find_target :: "node list \<Rightarrow> string \<Rightarrow> located option" where
  \<comment> \<open>lines 71-75: by \<^verbatim>\<open>id\<close>, else by \<^verbatim>\<open>name\<close>, else an \<^verbatim>\<open>a\<close> tag by \<^verbatim>\<open>href\<close>\<close>
  "find_target soup anchor =
     (case find_first (has_attr ''id'' anchor) soup of
        Some target \<Rightarrow> Some target
      | None \<Rightarrow>
          (case find_first (has_attr ''name'' anchor) soup of
             Some target \<Rightarrow> Some target
           | None \<Rightarrow>
               find_first (\<lambda>n. node_name n = Some ''a'' \<and> has_attr ''href'' (''#'' @ anchor) n) soup))"

definition section_start :: "located \<Rightarrow> located \<times> int option" where
  \<comment> \<open>lines 87-93: the start node and the start level\<close>
  "section_start target =
     (case get_heading_level (here target) of
        Some start_level \<Rightarrow> (target, Some start_level)
      | None \<Rightarrow>
          (case find_parent (\<lambda>n. node_name n \<in> Some ` heading_levels) target of
             Some heading_parent \<Rightarrow> (heading_parent, get_heading_level (here heading_parent))
           | None \<Rightarrow> (target, None)))"

fun collect_siblings :: "int option \<Rightarrow> node list \<Rightarrow> node list" where
  \<comment> \<open>lines 96-102: the loop over \<^verbatim>\<open>start.next_siblings\<close>; \<^verbatim>\<open>break\<close> ends the list\<close>
  "collect_siblings start_level [] = []"
| "collect_siblings start_level (sibling # rest) =
     (case node_name sibling of
        Some sibling_name \<Rightarrow>
          if sibling_name \<in> heading_levels then
            (let sibling_level = py_int_digit (sibling_name ! 1) in
             if start_level = None \<or> sibling_level \<le> the start_level then []
             else sibling # collect_siblings start_level rest)
          else sibling # collect_siblings start_level rest
      | None \<Rightarrow> sibling # collect_siblings start_level rest)"

definition section_nodes :: "located \<Rightarrow> node list" where
  \<comment> \<open>lines 87-102: the list \<^verbatim>\<open>section_nodes\<close> for a resolved target\<close>
  "section_nodes target =
     (let (start, start_level) = section_start target
      in here start # collect_siblings start_level (next_siblings start))"

definition build_subsection_content ::
  "(string \<Rightarrow> node list) \<Rightarrow> (node \<Rightarrow> string) \<Rightarrow> string \<Rightarrow> string option \<Rightarrow> string option" where
  \<comment> \<open>the parser and \<^verbatim>\<open>str\<close> on a page element are the library's: parameters here\<close>
  "build_subsection_content parse str_node html anchor =
     (case anchor of
        None \<Rightarrow> None
      | Some a \<Rightarrow>
          if a = [] then None
          else
            (case find_target (parse html) a of
               None \<Rightarrow> None
             | Some target \<Rightarrow> Some (concat (map str_node (section_nodes target)))))"

text \<open>
  The heading level in the spec's words, for comparison with \<open>get_heading_level\<close>: the
  integer 1 to 6 of the tag names \<^verbatim>\<open>h1\<close> to \<^verbatim>\<open>h6\<close>, and no level for any other
  element or for text.
\<close>

definition spec_heading_level :: "node \<Rightarrow> int option" where
  "spec_heading_level n =
     (case node_name n of
        Some t \<Rightarrow> map_of [(''h1'', 1), (''h2'', 2), (''h3'', 3), (''h4'', 4), (''h5'', 5), (''h6'', 6)] t
      | None \<Rightarrow> None)"

section \<open>Books, the loader and its cache\<close>

text \<open>
  Modelled from the spec: the dataclasses \<^verbatim>\<open>Book\<close>, \<^verbatim>\<open>BookMetadata\<close> and
  \<^verbatim>\<open>ChapterContent\<close> are imported from the module \<^verbatim>\<open>reader3\<close>, which is not among the
  sources. The fields are those that \<^verbatim>\<open>server.py\<close> reads and passes to the constructor
  \<^verbatim>\<open>ChapterContent(id=, href=, title=, content=, text=, order=)\<close>; the spec's data model
  gives their meaning (a chapter is an immutable value; a book is metadata plus the
  spine, the ordered chapter sequence).
\<close>

record BookMetadata =
  title :: string
  authors :: "string list"

record ChapterContent =
  id_field :: string
  href :: string
  title :: string
  content :: string
  text_field :: string
  order :: int

record Book =
  metadata :: BookMetadata
  spine :: "ChapterContent list"

text \<open>
  The file system as the loader sees it: a path is absent, or holds a pickled book, or
  holds something on which \<^verbatim>\<open>open\<close> or \<^verbatim>\<open>pickle.load\<close> raises.
\<close>

datatype disk_file = Pickle Book | Unreadable

type_synonym filesystem = "string \<rightharpoonup> disk_file"

fun os_path_join :: "string \<Rightarrow> string list \<Rightarrow> string" where
  \<comment> \<open>\<^verbatim>\<open>posixpath.join\<close>\<close>
  "os_path_join path [] = path"
| "os_path_join path (b # p) =
     os_path_join
       (if b \<noteq> [] \<and> hd b = CHR ''/'' then b
        else if path = [] \<or> last path = CHR ''/'' then path @ b
        else path @ ''/'' @ b) p"

definition load_book_cached_wrapped :: "string \<Rightarrow> filesystem \<Rightarrow> string \<Rightarrow> Book option" where
  \<comment> \<open>lines 27-37, the body under the decorator; \<^verbatim>\<open>BOOKS_DIR\<close> is the first argument\<close>
  "load_book_cached_wrapped BOOKS_DIR fs folder_name =
     (let file_path = os_path_join BOOKS_DIR [folder_name, ''book.pkl''] in
      case fs file_path of
        None \<Rightarrow> None
      | Some (Pickle book) \<Rightarrow> Some book
      | Some Unreadable \<Rightarrow> None)"

text \<open>
  \<^verbatim>\<open>functools.lru_cache(maxsize=10)\<close>: the entries, most recently used first, with the
  counters that \<^verbatim>\<open>cache_info()\<close> reports. A call whose key is stored returns the stored
  value, whatever it is, and moves the entry to the front; any other call runs the wrapped
  function, stores what it returned, and drops the least recently used entry when full.
  \<open>misses\<close> counts the runs of the wrapped function.
\<close>

record 'v lru_cache =
  entries :: "(string \<times> 'v) list"
  hits :: nat
  misses :: nat

definition maxsize :: nat where
  "maxsize = 10"

definition cache_clear :: "'v lru_cache" where
  "cache_clear = \<lparr>entries = [], hits = 0, misses = 0\<rparr>"

definition lru_cache_call :: "(string \<Rightarrow> 'v) \<Rightarrow> string \<Rightarrow> 'v lru_cache \<Rightarrow> 'v \<times> 'v lru_cache" where
  "lru_cache_call user_function key c =
     (case map_of (entries c) key of
        Some result \<Rightarrow>
          (result, c\<lparr>entries := (key, result) # filter (\<lambda>e. fst e \<noteq> key) (entries c),
                      hits := hits c + 1\<rparr>)
      | None \<Rightarrow>
          (let result = user_function key
           in (result, c\<lparr>entries := take maxsize ((key, result) # entries c),
                          misses := misses c + 1\<rparr>)))"

definition load_book_cached ::
  "string \<Rightarrow> filesystem \<Rightarrow> string \<Rightarrow> Book option lru_cache \<Rightarrow> Book option \<times> Book option lru_cache" where
  "load_book_cached BOOKS_DIR fs folder_name c =
     lru_cache_call (load_book_cached_wrapped BOOKS_DIR fs) folder_name c"

text \<open>
  A run of lookups, each with the \<^verbatim>\<open>BOOKS_DIR\<close>, the disk and the identifier of its
  moment, and the cache they leave.
\<close>

fun load_books_cached ::
  "(string \<times> filesystem \<times> string) list \<Rightarrow> Book option lru_cache \<Rightarrow> Book option lru_cache" where
  "load_books_cached [] c = c"
| "load_books_cached ((dir, fs, k) # calls) c =
     load_books_cached calls (snd (load_book_cached dir fs k c))"

text \<open>
  The entry \<open>(k, v)\<close> is in the cache, and the entries before it (the ones used more
  recently) have distinct identifiers, all from \<open>S\<close> and none of them \<open>k\<close>.
\<close>

definition retained :: "string \<Rightarrow> 'v \<Rightarrow> string set \<Rightarrow> 'v lru_cache \<Rightarrow> bool" where
  "retained k v S c \<longleftrightarrow>
     (\<exists>pre post. entries c = pre @ (k, v) # post \<and> k \<notin> fst ` set pre \<and>
        distinct (map fst pre) \<and> fst ` set pre \<subseteq> S)"

section \<open>Reading a chapter\<close>

datatype http_error = HTTPException int string

record Request =
  query_params :: "string \<rightharpoonup> string"

definition prev_idx_of :: "int \<Rightarrow> int option" where
  \<comment> \<open>line 132\<close>
  "prev_idx_of chapter_index = (if chapter_index > 0 then Some (chapter_index - 1) else None)"

definition next_idx_of :: "int \<Rightarrow> int \<Rightarrow> int option" where
  \<comment> \<open>line 133; the second argument is \<^verbatim>\<open>len(book.spine)\<close>\<close>
  "next_idx_of chapter_index len = (if chapter_index < len - 1 then Some (chapter_index + 1) else None)"

text \<open>The dictionary handed to the template \<^verbatim>\<open>reader.html\<close>.\<close>

record reader_context =
  request :: Request
  book :: Book
  current_chapter :: ChapterContent
  chapter_index :: int
  book_id :: string
  prev_idx :: "int option"
  next_idx :: "int option"
  anchor :: "string option"
  is_subsection :: bool

text \<open>
  What the request handler takes from outside the function: the global \<^verbatim>\<open>BOOKS_DIR\<close>,
  the file system, and the library's parser and \<^verbatim>\<open>str\<close> on page elements.
\<close>

record environment =
  books_dir :: string
  disk :: filesystem
  html_parser :: "string \<Rightarrow> node list"
  str_of :: "node \<Rightarrow> string"

definition read_chapter ::
  "environment \<Rightarrow> Request \<Rightarrow> string \<Rightarrow> int \<Rightarrow> Book option lru_cache
     \<Rightarrow> (http_error + reader_context) \<times> Book option lru_cache" where
  "read_chapter env req bid idx c =
     (let (book_opt, c') = load_book_cached (books_dir env) (disk env) bid c in
      case book_opt of
        None \<Rightarrow> (Inl (HTTPException 404 ''Book not found''), c')
      | Some b \<Rightarrow>
          if idx < 0 \<or> idx \<ge> int (length (spine b)) then
            (Inl (HTTPException 404 ''Chapter not found''), c')
          else
            (let cur = spine b ! nat idx;
                 anc = query_params req ''anchor'';
                 subsection_content =
                   build_subsection_content (html_parser env) (str_of env) (content cur) anc;
                 cur' =
                   (case subsection_content of
                      Some sub \<Rightarrow>
                        \<lparr>id_field = id_field cur, href = href cur, title = title cur,
                         content = sub, text_field = text_field cur, order = order cur\<rparr>
                    | None \<Rightarrow> cur)
             in (Inr \<lparr>request = req, book = b, current_chapter = cur', chapter_index = idx,
                      book_id = bid, prev_idx = prev_idx_of idx,
                      next_idx = next_idx_of idx (int (length (spine b))),
                      anchor = anc, is_subsection = (subsection_content \<noteq> None)\<rparr>, c')))"

section \<open>Example chapters\<close>

text \<open>
  Modelled from the spec: the library's \<^verbatim>\<open>str\<close> on a page element is not among the
  sources. The spec's document model asks of serialization that tag names and attributes
  are reproduced verbatim and that textual content is exact; \<open>to_html\<close> does that and
  no more. The theorems below hold for every parser and every serialization; \<open>to_html\<close>
  and the example chapter only instantiate them in closed examples.
\<close>

fun to_html :: "node \<Rightarrow> string" where
  "to_html (Text s) = s"
| "to_html (Element t as cs) =
     ''<'' @ t @ concat (map (\<lambda>(k, v). '' '' @ k @ ''='' @ [CHR 0x22] @ v @ [CHR 0x22]) as) @ ''>''
       @ concat (map to_html cs) @ ''</'' @ t @ ''>''"

text \<open>
  The spec's nesting example, the siblings \<^verbatim>\<open>[h2 A, p, h3 B, p, h2 C]\<close>, after an
  opening paragraph; the \<^verbatim>\<open>h3\<close> holds a \<^verbatim>\<open>span\<close> that carries an id.
\<close>

definition chapter_example :: "node list" where
  "chapter_example =
     [Element ''p'' [(''id'', ''intro'')] [Text ''Preface''],
      Element ''h2'' [(''id'', ''a'')] [Text ''A''],
      Element ''p'' [] [Text ''one''],
      Element ''h3'' [] [Element ''span'' [(''id'', ''b'')] [Text ''B'']],
      Element ''p'' [] [Text ''two''],
      Element ''h2'' [] [Text ''C'']]"

definition chapter_html :: string where
  "chapter_html = concat (map to_html chapter_example)"

definition chapter_parser :: "string \<Rightarrow> node list" where
  \<comment> \<open>a parser as far as the example needs one: it knows the example chapter\<close>
  "chapter_parser html = (if html = chapter_html then chapter_example else [])"

text \<open>
  A fragment in which the anchor \<^verbatim>\<open>x\<close> is the \<^verbatim>\<open>name\<close> of one element and the
  \<^verbatim>\<open>id\<close> of a later one, \<^verbatim>\<open>n\<close> is only a \<^verbatim>\<open>name\<close>, and \<^verbatim>\<open>fn\<close> is only the
  target of a link.
\<close>

definition anchors_example :: "node list" where
  "anchors_example =
     [Element ''a'' [(''name'', ''x'')] [],
      Element ''a'' [(''name'', ''n'')] [],
      Element ''p'' [(''id'', ''x'')] [Text ''target''],
      Element ''a'' [(''href'', ''#fn'')] [Text ''1'']]"

text \<open>
  A book of three chapters whose middle chapter is the example chapter, the disk that
  holds its archive under \<^verbatim>\<open>./novel_data/book.pkl\<close>, and a request for the anchor
  \<^verbatim>\<open>a\<close>.
\<close>

definition book_example :: Book where
  "book_example =
     \<lparr>metadata = \<lparr>BookMetadata.title = ''Example'', authors = [''Anon'']\<rparr>,
      spine =
        [\<lparr>id_field = ''c0'', href = ''c0.html'', title = ''Zero'', content = ''<p>zero</p>'',
          text_field = ''zero'', order = 0\<rparr>,
         \<lparr>id_field = ''c1'', href = ''c1.html'', title = ''One'', content = chapter_html,
          text_field = ''Preface A one B two C'', order = 1\<rparr>,
         \<lparr>id_field = ''c2'', href = ''c2.html'', title = ''Two'', content = ''<p>two</p>'',
          text_field = ''two'', order = 2\<rparr>]\<rparr>"

definition disk_example :: filesystem where
  "disk_example = [''./novel_data/book.pkl'' \<mapsto> Pickle book_example]"

definition env_example :: environment where
  "env_example =
     \<lparr>books_dir = ''.'', disk = disk_example, html_parser = chapter_parser, str_of = to_html\<rparr>"

definition request_example :: Request where
  "request_example = \<lparr>query_params = [''anchor'' \<mapsto> ''a'']\<rparr>"

section \<open>Heading levels and the sibling walk\<close>

lemma py_int_digit_simps:
  "py_int_digit CHR ''1'' = 1" "py_int_digit CHR ''2'' = 2" "py_int_digit CHR ''3'' = 3"
  "py_int_digit CHR ''4'' = 4" "py_int_digit CHR ''5'' = 5" "py_int_digit CHR ''6'' = 6"
  by (simp_all add: py_int_digit_def)

lemma get_heading_level_None_iff:
  "get_heading_level n = None \<longleftrightarrow> node_name n \<notin> Some ` heading_levels"
  by (auto simp: get_heading_level_def split: option.splits)

lemma get_heading_level_Some_name:
  "get_heading_level n = Some L \<Longrightarrow> node_name n \<in> Some ` heading_levels"
  using get_heading_level_None_iff [of n] by auto

lemma get_heading_level_range:
  assumes "get_heading_level n = Some L"
  shows "(node_name n, L) \<in> {(Some ''h1'', 1), (Some ''h2'', 2), (Some ''h3'', 3),
                               (Some ''h4'', 4), (Some ''h5'', 5), (Some ''h6'', 6)}"
proof -
  obtain t where t: "node_name n = Some t" "t \<in> heading_levels" "L = py_int_digit (t ! 1)"
    using assms by (auto simp: get_heading_level_def split: option.splits if_splits)
  from t(2) consider "t = ''h1''" | "t = ''h2''" | "t = ''h3''"
    | "t = ''h4''" | "t = ''h5''" | "t = ''h6''"
    unfolding heading_levels_def by blast
  then show ?thesis
    using t(1,3) by cases (simp_all add: py_int_digit_simps)
qed

lemma get_heading_level_spec: "get_heading_level n = spec_heading_level n"
proof (cases "node_name n")
  case None
  then show ?thesis by (simp add: get_heading_level_def spec_heading_level_def)
next
  case (Some t)
  show ?thesis
  proof (cases "t \<in> heading_levels")
    case True
    then consider "t = ''h1''" | "t = ''h2''" | "t = ''h3''"
      | "t = ''h4''" | "t = ''h5''" | "t = ''h6''"
      unfolding heading_levels_def by blast
    then show ?thesis
      using Some True
      by cases (simp_all add: get_heading_level_def spec_heading_level_def py_int_digit_simps)
  next
    case False
    then have "map_of [(''h1'', 1::int), (''h2'', 2), (''h3'', 3), (''h4'', 4), (''h5'', 5), (''h6'', 6)] t = None"
      unfolding heading_levels_def by (simp del: One_nat_def)
    with Some False show ?thesis
      by (simp add: get_heading_level_def spec_heading_level_def)
  qed
qed

lemma collect_siblings_level:
  "collect_siblings (Some L) sibs =
     takeWhile (\<lambda>s. case get_heading_level s of None \<Rightarrow> True | Some l \<Rightarrow> L < l) sibs"
  by (induction sibs) (auto simp: get_heading_level_def Let_def split: option.splits)

lemma collect_siblings_no_level:
  "collect_siblings None sibs = takeWhile (\<lambda>s. get_heading_level s = None) sibs"
  by (induction sibs) (auto simp: get_heading_level_def Let_def split: option.splits)

lemma find_first_of_append:
  "\<forall>x\<in>set xs. \<not> P x \<Longrightarrow> P y \<Longrightarrow> List.find P (xs @ y # ys) = Some y"
  by (induction xs) simp_all

lemma find_parent_nearest:
  assumes "parents target = nearer @ h # further"
    and "\<forall>p\<in>set nearer. \<not> P (here p)"
    and "P (here h)"
  shows "find_parent P target = Some h"
  using assms unfolding find_parent_def
  by (simp add: find_first_of_append)

lemma build_subsection_content_resolved:
  assumes "a \<noteq> []" and "find_target (parse html) a = Some target"
  shows "build_subsection_content parse str_node html (Some a)
           = Some (concat (map str_node (section_nodes target)))"
  using assms by (simp add: build_subsection_content_def)

lemma section_start_heading:
  "get_heading_level (here target) = Some L \<Longrightarrow> section_start target = (target, Some L)"
  by (simp add: section_start_def)

lemma section_start_promoted:
  assumes "get_heading_level (here target) = None"
    and "parents target = nearer @ h # further"
    and "\<forall>p\<in>set nearer. get_heading_level (here p) = None"
    and "get_heading_level (here h) = Some L"
  shows "section_start target = (h, Some L)"
proof -
  have "find_parent (\<lambda>n. node_name n \<in> Some ` heading_levels) target = Some h"
    using assms(2-4)
    by (intro find_parent_nearest)
       (auto simp: get_heading_level_None_iff dest: get_heading_level_Some_name)
  with assms(1,4) show ?thesis by (simp add: section_start_def)
qed

lemma section_start_no_heading:
  assumes "get_heading_level (here target) = None"
    and "\<forall>p\<in>set (parents target). get_heading_level (here p) = None"
  shows "section_start target = (target, None)"
proof -
  have "find_parent (\<lambda>n. node_name n \<in> Some ` heading_levels) target = None"
    using assms(2) by (auto simp: find_parent_def find_None_iff get_heading_level_None_iff)
  with assms(1) show ?thesis by (simp add: section_start_def)
qed

lemma takeWhile_split:
  "\<exists>rest. xs = takeWhile P xs @ rest \<and> (rest = [] \<or> \<not> P (hd rest))"
proof (intro exI conjI)
  show "xs = takeWhile P xs @ dropWhile P xs" by simp
  show "dropWhile P xs = [] \<or> \<not> P (hd (dropWhile P xs))"
    using hd_dropWhile [of P xs] by blast
qed


section \<open>The extracted span\<close>

text \<open>
  C1, as the code has it. For a resolved target that is not a heading and has no heading
  ancestor, the span is the target followed by its following siblings up to, but not
  including, the first following sibling that is a heading element, of any level
  (line 100: \<^verbatim>\<open>start_level is None or ...\<close> breaks at every heading). Only when none of
  the following siblings is a heading is the span the target plus all of them.
\<close>

theorem no_heading_section_span:
  assumes "a \<noteq> []"
    and "find_target (parse html) a = Some target"
    and "get_heading_level (here target) = None"
    and "\<forall>p\<in>set (parents target). get_heading_level (here p) = None"
  shows "(\<exists>span rest.
            next_siblings target = span @ rest \<and>
            build_subsection_content parse str_node html (Some a)
              = Some (concat (map str_node (here target # span))) \<and>
            (\<forall>s\<in>set span. get_heading_level s = None) \<and>
            (rest = [] \<or> get_heading_level (hd rest) \<noteq> None)) \<and>
         ((\<forall>s\<in>set (next_siblings target). get_heading_level s = None) \<longrightarrow>
            build_subsection_content parse str_node html (Some a)
              = Some (concat (map str_node (here target # next_siblings target))))"
proof -
  let ?P = "\<lambda>s. get_heading_level s = None"
  have "section_start target = (target, None)"
    using assms(3,4) by (rule section_start_no_heading)
  then have nodes: "section_nodes target = here target # takeWhile ?P (next_siblings target)"
    by (simp add: section_nodes_def collect_siblings_no_level)
  note built = build_subsection_content_resolved [of a parse html target str_node]
  obtain rest where rest: "next_siblings target = takeWhile ?P (next_siblings target) @ rest"
    and stop: "rest = [] \<or> \<not> ?P (hd rest)"
    using takeWhile_split [of "next_siblings target" ?P] by blast
  have inside: "\<forall>s\<in>set (takeWhile ?P (next_siblings target)). get_heading_level s = None"
    by (auto dest!: set_takeWhileD)
  have first: "\<exists>span rest.
            next_siblings target = span @ rest \<and>
            build_subsection_content parse str_node html (Some a)
              = Some (concat (map str_node (here target # span))) \<and>
            (\<forall>s\<in>set span. get_heading_level s = None) \<and>
            (rest = [] \<or> get_heading_level (hd rest) \<noteq> None)"
    using rest inside stop built assms(1,2) nodes
    by (intro exI [of _ "takeWhile ?P (next_siblings target)"] exI [of _ rest]) simp
  have second: "(\<forall>s\<in>set (next_siblings target). get_heading_level s = None) \<longrightarrow>
            build_subsection_content parse str_node html (Some a)
              = Some (concat (map str_node (here target # next_siblings target)))"
  proof
    assume "\<forall>s\<in>set (next_siblings target). get_heading_level s = None"
    then have "takeWhile ?P (next_siblings target) = next_siblings target"
      by simp
    with built assms(1,2) nodes
    show "build_subsection_content parse str_node html (Some a)
              = Some (concat (map str_node (here target # next_siblings target)))"
      by simp
  qed
  from first second show ?thesis by (rule conjI)
qed

theorem no_heading_section_span_witness:
  "(\<exists>span rest.
      drop 1 chapter_example = span @ rest \<and>
      build_subsection_content chapter_parser to_html chapter_html (Some ''intro'')
        = Some (concat (map to_html (chapter_example ! 0 # span))) \<and>
      (\<forall>s\<in>set span. get_heading_level s = None) \<and>
      (rest = [] \<or> get_heading_level (hd rest) \<noteq> None))"
proof -
  let ?t = "Located (chapter_example ! 0) (drop 1 chapter_example) None"
  have h1: "''intro'' \<noteq> []" by simp
  have h2: "find_target (chapter_parser chapter_html) ''intro'' = Some ?t"
    by (simp add: chapter_parser_def find_target_def find_first_def descendants_def
        chapter_example_def has_attr_def)
  have h3: "get_heading_level (here ?t) = None"
    by (simp add: get_heading_level_def heading_levels_def chapter_example_def)
  have h4: "\<forall>p\<in>set (parents ?t). get_heading_level (here p) = None"
    by simp
  show ?thesis
    using no_heading_section_span [of "''intro''" chapter_parser chapter_html ?t to_html,
        OF h1 h2 h3 h4]
    by simp
qed

text \<open>
  C1 as stated fails: the paragraph \<^verbatim>\<open>intro\<close> of the example chapter is not a heading
  and has no ancestor at all, its following siblings are the five other elements, and the
  extraction returns the paragraph alone, since the very next sibling is a heading.
\<close>

theorem whole_remainder_counterexample:
  "find_target (chapter_parser chapter_html) ''intro''
     = Some (Located (chapter_example ! 0) (drop 1 chapter_example) None)
   \<and> get_heading_level (chapter_example ! 0) = None
   \<and> parents (Located (chapter_example ! 0) (drop 1 chapter_example) None) = []
   \<and> build_subsection_content chapter_parser to_html chapter_html (Some ''intro'')
       = Some (to_html (chapter_example ! 0))
   \<and> build_subsection_content chapter_parser to_html chapter_html (Some ''intro'')
       \<noteq> Some (concat (map to_html (chapter_example ! 0 # drop 1 chapter_example)))"
  by (simp add: build_subsection_content_def chapter_parser_def find_target_def find_first_def
      descendants_def chapter_example_def has_attr_def section_nodes_def section_start_def
      find_parent_def get_heading_level_def heading_levels_def)

text \<open>
  C2. When the anchor resolves to a heading of level \<open>L\<close>, or to an element that is not
  a heading and whose nearest heading ancestor has level \<open>L\<close>, the span starts at that
  heading and continues with its following siblings in document order up to, but not
  including, the first one that is a heading of level at most \<open>L\<close>; with no such
  sibling it runs to the end of the sibling list. Every heading inside the span is deeper
  than \<open>L\<close>, so a deeper heading is included and is no boundary. Levels are those of
  the tag names, \<open>spec_heading_level\<close>.
\<close>

theorem heading_section_span:
  assumes "a \<noteq> []"
    and "find_target (parse html) a = Some target"
    and "(start = target \<and> spec_heading_level (here target) = Some L) \<or>
         (spec_heading_level (here target) = None \<and>
          (\<exists>nearer further. parents target = nearer @ start # further \<and>
             (\<forall>p\<in>set nearer. spec_heading_level (here p) = None)) \<and>
          spec_heading_level (here start) = Some L)"
  shows "build_subsection_content parse str_node html (Some a)
           = Some (concat (map str_node
               (here start #
                takeWhile (\<lambda>s. case spec_heading_level s of None \<Rightarrow> True | Some l \<Rightarrow> L < l)
                  (next_siblings start))))
         \<and> (\<exists>span rest.
           next_siblings start = span @ rest \<and>
           build_subsection_content parse str_node html (Some a)
             = Some (concat (map str_node (here start # span))) \<and>
           (\<forall>s\<in>set span. \<forall>l. spec_heading_level s = Some l \<longrightarrow> L < l) \<and>
           (rest = [] \<or> (\<exists>l. spec_heading_level (hd rest) = Some l \<and> l \<le> L)))"
proof -
  let ?P = "\<lambda>s. case spec_heading_level s of None \<Rightarrow> True | Some l \<Rightarrow> L < l"
  have start: "section_start target = (start, Some L)"
    using assms(3)
    by (auto simp: get_heading_level_spec intro: section_start_heading section_start_promoted)
  then have nodes: "section_nodes target = here start # takeWhile ?P (next_siblings start)"
    by (simp add: section_nodes_def collect_siblings_level get_heading_level_spec)
  have built: "build_subsection_content parse str_node html (Some a)
           = Some (concat (map str_node (here start # takeWhile ?P (next_siblings start))))"
    using build_subsection_content_resolved [of a parse html target str_node] assms(1,2) nodes
    by simp
  obtain rest where rest: "next_siblings start = takeWhile ?P (next_siblings start) @ rest"
    and stop: "rest = [] \<or> \<not> ?P (hd rest)"
    using takeWhile_split [of "next_siblings start" ?P] by blast
  have inside: "\<forall>s\<in>set (takeWhile ?P (next_siblings start)). \<forall>l. spec_heading_level s = Some l \<longrightarrow> L < l"
    by (auto dest!: set_takeWhileD)
  have boundary: "rest = [] \<or> (\<exists>l. spec_heading_level (hd rest) = Some l \<and> l \<le> L)"
    using stop by (auto split: option.splits)
  have "\<exists>span rest.
           next_siblings start = span @ rest \<and>
           build_subsection_content parse str_node html (Some a)
             = Some (concat (map str_node (here start # span))) \<and>
           (\<forall>s\<in>set span. \<forall>l. spec_heading_level s = Some l \<longrightarrow> L < l) \<and>
           (rest = [] \<or> (\<exists>l. spec_heading_level (hd rest) = Some l \<and> l \<le> L))"
    using rest inside boundary built
    by (intro exI [of _ "takeWhile ?P (next_siblings start)"] exI [of _ rest]) simp
  with built show ?thesis by (rule conjI)
qed

theorem heading_section_span_witness:
  "build_subsection_content chapter_parser to_html chapter_html (Some ''a'')
     = Some (concat (map to_html
         [Element ''h2'' [(''id'', ''a'')] [Text ''A''],
          Element ''p'' [] [Text ''one''],
          Element ''h3'' [] [Element ''span'' [(''id'', ''b'')] [Text ''B'']],
          Element ''p'' [] [Text ''two'']]))
   \<and> build_subsection_content chapter_parser to_html chapter_html (Some ''b'')
     = Some (concat (map to_html
         [Element ''h3'' [] [Element ''span'' [(''id'', ''b'')] [Text ''B'']],
          Element ''p'' [] [Text ''two'']]))"
proof -
  let ?t = "Located (chapter_example ! 1) (drop 2 chapter_example) None"
  let ?h = "Located (chapter_example ! 3) (drop 4 chapter_example) None"
  let ?u = "Located (Element ''span'' [(''id'', ''b'')] [Text ''B'']) [] (Some ?h)"
  have a1: "''a'' \<noteq> []" by simp
  have a2: "find_target (chapter_parser chapter_html) ''a'' = Some ?t"
    by (simp add: chapter_parser_def find_target_def find_first_def descendants_def
        chapter_example_def has_attr_def)
  have a3: "(?t = ?t \<and> spec_heading_level (here ?t) = Some 2) \<or>
         (spec_heading_level (here ?t) = None \<and>
          (\<exists>nearer further. parents ?t = nearer @ ?t # further \<and>
             (\<forall>p\<in>set nearer. spec_heading_level (here p) = None)) \<and>
          spec_heading_level (here ?t) = Some 2)"
    by (simp add: spec_heading_level_def chapter_example_def)
  have b1: "''b'' \<noteq> []" by simp
  have b2: "find_target (chapter_parser chapter_html) ''b'' = Some ?u"
    by (simp add: chapter_parser_def find_target_def find_first_def descendants_def
        chapter_example_def has_attr_def)
  have not_heading: "spec_heading_level (here ?u) = None"
    by (simp add: spec_heading_level_def)
  have nearest: "\<exists>nearer further. parents ?u = nearer @ ?h # further \<and>
             (\<forall>p\<in>set nearer. spec_heading_level (here p) = None)"
    by (intro exI [of _ "[]"]) simp
  have level: "spec_heading_level (here ?h) = Some 3"
    by (simp add: spec_heading_level_def chapter_example_def)
  have b3: "(?h = ?u \<and> spec_heading_level (here ?u) = Some 3) \<or>
         (spec_heading_level (here ?u) = None \<and>
          (\<exists>nearer further. parents ?u = nearer @ ?h # further \<and>
             (\<forall>p\<in>set nearer. spec_heading_level (here p) = None)) \<and>
          spec_heading_level (here ?h) = Some 3)"
    using not_heading nearest level by blast
  have span_a: "here ?t # takeWhile (\<lambda>s. case spec_heading_level s of None \<Rightarrow> True | Some l \<Rightarrow> 2 < l)
                  (next_siblings ?t)
      = [Element ''h2'' [(''id'', ''a'')] [Text ''A''],
          Element ''p'' [] [Text ''one''],
          Element ''h3'' [] [Element ''span'' [(''id'', ''b'')] [Text ''B'']],
          Element ''p'' [] [Text ''two'']]"
    by (simp add: spec_heading_level_def chapter_example_def)
  have span_b: "here ?h # takeWhile (\<lambda>s. case spec_heading_level s of None \<Rightarrow> True | Some l \<Rightarrow> 3 < l)
                  (next_siblings ?h)
      = [Element ''h3'' [] [Element ''span'' [(''id'', ''b'')] [Text ''B'']],
          Element ''p'' [] [Text ''two'']]"
    by (simp add: spec_heading_level_def chapter_example_def)
  have "build_subsection_content chapter_parser to_html chapter_html (Some ''a'')
     = Some (concat (map to_html (here ?t # takeWhile (\<lambda>s. case spec_heading_level s of None \<Rightarrow> True | Some l \<Rightarrow> 2 < l)
                  (next_siblings ?t))))"
    using heading_section_span [of "''a''" chapter_parser chapter_html ?t ?t 2 to_html,
        OF a1 a2 a3] by (rule conjunct1)
  moreover have "build_subsection_content chapter_parser to_html chapter_html (Some ''b'')
     = Some (concat (map to_html (here ?h # takeWhile (\<lambda>s. case spec_heading_level s of None \<Rightarrow> True | Some l \<Rightarrow> 3 < l)
                  (next_siblings ?h))))"
    using heading_section_span [of "''b''" chapter_parser chapter_html ?u ?h 3 to_html,
        OF b1 b2 b3] by (rule conjunct1)
  ultimately show ?thesis
    unfolding span_a span_b by (rule conjI)
qed


text \<open>
  C3. For a target that is not a heading element and has a heading element among its
  ancestors, the start node is the nearest such ancestor and the start level is the
  digit of that ancestor's tag name, an integer from 1 to 6.
\<close>

theorem promoted_to_nearest_heading_ancestor:
  assumes "node_name (here target) \<notin> Some ` heading_levels"
    and "parents target = nearer @ h # further"
    and "\<forall>p\<in>set nearer. node_name (here p) \<notin> Some ` heading_levels"
    and "node_name (here h) \<in> Some ` heading_levels"
  shows "\<exists>L. section_start target = (h, Some L) \<and>
             (node_name (here h), L) \<in> {(Some ''h1'', 1), (Some ''h2'', 2), (Some ''h3'', 3),
                                        (Some ''h4'', 4), (Some ''h5'', 5), (Some ''h6'', 6)}"
proof -
  obtain L where L: "get_heading_level (here h) = Some L"
    using assms(4) get_heading_level_None_iff [of "here h"] by (cases "get_heading_level (here h)") auto
  have "section_start target = (h, Some L)"
    using assms(1-3) L by (intro section_start_promoted) (auto simp: get_heading_level_None_iff)
  with get_heading_level_range [OF L] show ?thesis by blast
qed


theorem promoted_to_nearest_heading_ancestor_witness:
  "\<exists>L. section_start
          (Located (Element ''span'' [(''id'', ''b'')] [Text ''B'']) []
             (Some (Located (chapter_example ! 3) (drop 4 chapter_example) None)))
        = (Located (chapter_example ! 3) (drop 4 chapter_example) None, Some L) \<and>
       (node_name (chapter_example ! 3), L)
         \<in> {(Some ''h1'', 1), (Some ''h2'', 2), (Some ''h3'', 3),
            (Some ''h4'', 4), (Some ''h5'', 5), (Some ''h6'', 6)}"
proof -
  let ?h = "Located (chapter_example ! 3) (drop 4 chapter_example) None"
  let ?t = "Located (Element ''span'' [(''id'', ''b'')] [Text ''B'']) [] (Some ?h)"
  have h1: "node_name (here ?t) \<notin> Some ` heading_levels"
    by (simp add: heading_levels_def)
  have h2: "parents ?t = [] @ ?h # []" by simp
  have h3: "\<forall>p\<in>set []. node_name (here p) \<notin> Some ` heading_levels" by simp
  have h4: "node_name (here ?h) \<in> Some ` heading_levels"
    by (simp add: heading_levels_def chapter_example_def)
  show ?thesis
    using promoted_to_nearest_heading_ancestor [OF h1 h2 h3 h4] by simp
qed

section \<open>Anchor resolution\<close>

lemma find_first_SomeD:
  "find_first P soup = Some t \<Longrightarrow> t \<in> set (descendants soup) \<and> is_tag (here t) \<and> P (here t)"
  by (auto simp: find_first_def find_Some_iff)

lemma find_first_None_iff:
  "find_first P soup = None \<longleftrightarrow> \<not> (\<exists>l\<in>set (descendants soup). is_tag (here l) \<and> P (here l))"
  by (auto simp: find_first_def find_None_iff)

lemma find_first_exists:
  "\<exists>l\<in>set (descendants soup). is_tag (here l) \<and> P (here l) \<Longrightarrow> \<exists>t. find_first P soup = Some t"
  using find_first_None_iff [of P soup] by (cases "find_first P soup") auto

text \<open>
  C4. Resolution tries the \<^verbatim>\<open>id\<close> attribute, then the \<^verbatim>\<open>name\<close> attribute, then an
  \<^verbatim>\<open>a\<close> element whose \<^verbatim>\<open>href\<close> is \<^verbatim>\<open>#\<close> followed by the anchor, and the first
  strategy with a match decides: whenever some element has the anchor as its id, the
  result is the first such element in document order, whatever carries the anchor as a
  name; with no id match, the first element with that name; with neither, the link
  element itself.
\<close>

theorem anchor_resolution_priority:
  assumes "a \<noteq> []"
  shows
  "((\<exists>l\<in>set (descendants soup). is_tag (here l) \<and> has_attr ''id'' a (here l)) \<longrightarrow>
      (\<exists>t. find_target soup a = Some t \<and> find_first (has_attr ''id'' a) soup = Some t \<and>
           t \<in> set (descendants soup) \<and> is_tag (here t) \<and> has_attr ''id'' a (here t)))
   \<and> (\<not> (\<exists>l\<in>set (descendants soup). is_tag (here l) \<and> has_attr ''id'' a (here l)) \<and>
      (\<exists>l\<in>set (descendants soup). is_tag (here l) \<and> has_attr ''name'' a (here l)) \<longrightarrow>
      (\<exists>t. find_target soup a = Some t \<and> find_first (has_attr ''name'' a) soup = Some t \<and>
           t \<in> set (descendants soup) \<and> is_tag (here t) \<and> has_attr ''name'' a (here t)))
   \<and> (\<not> (\<exists>l\<in>set (descendants soup). is_tag (here l) \<and> has_attr ''id'' a (here l)) \<and>
      \<not> (\<exists>l\<in>set (descendants soup). is_tag (here l) \<and> has_attr ''name'' a (here l)) \<and>
      (\<exists>l\<in>set (descendants soup).
          node_name (here l) = Some ''a'' \<and> has_attr ''href'' (''#'' @ a) (here l)) \<longrightarrow>
      (\<exists>t. find_target soup a = Some t \<and> t \<in> set (descendants soup) \<and>
           node_name (here t) = Some ''a'' \<and> has_attr ''href'' (''#'' @ a) (here t)))"
proof (intro conjI impI)
  assume "\<exists>l\<in>set (descendants soup). is_tag (here l) \<and> has_attr ''id'' a (here l)"
  then obtain t where t: "find_first (has_attr ''id'' a) soup = Some t"
    using find_first_exists by blast
  with find_first_SomeD [OF t]
  show "\<exists>t. find_target soup a = Some t \<and> find_first (has_attr ''id'' a) soup = Some t \<and>
           t \<in> set (descendants soup) \<and> is_tag (here t) \<and> has_attr ''id'' a (here t)"
    by (simp add: find_target_def)
next
  assume "\<not> (\<exists>l\<in>set (descendants soup). is_tag (here l) \<and> has_attr ''id'' a (here l)) \<and>
      (\<exists>l\<in>set (descendants soup). is_tag (here l) \<and> has_attr ''name'' a (here l))"
  then have no_id: "find_first (has_attr ''id'' a) soup = None"
    and "\<exists>l\<in>set (descendants soup). is_tag (here l) \<and> has_attr ''name'' a (here l)"
    by (simp_all add: find_first_None_iff)
  then obtain t where t: "find_first (has_attr ''name'' a) soup = Some t"
    using find_first_exists by blast
  with find_first_SomeD [OF t] no_id
  show "\<exists>t. find_target soup a = Some t \<and> find_first (has_attr ''name'' a) soup = Some t \<and>
           t \<in> set (descendants soup) \<and> is_tag (here t) \<and> has_attr ''name'' a (here t)"
    by (simp add: find_target_def)
next
  let ?link = "\<lambda>n. node_name n = Some ''a'' \<and> has_attr ''href'' (''#'' @ a) n"
  assume "\<not> (\<exists>l\<in>set (descendants soup). is_tag (here l) \<and> has_attr ''id'' a (here l)) \<and>
      \<not> (\<exists>l\<in>set (descendants soup). is_tag (here l) \<and> has_attr ''name'' a (here l)) \<and>
      (\<exists>l\<in>set (descendants soup).
          node_name (here l) = Some ''a'' \<and> has_attr ''href'' (''#'' @ a) (here l))"
  then have no_id: "find_first (has_attr ''id'' a) soup = None"
    and no_name: "find_first (has_attr ''name'' a) soup = None"
    and "\<exists>l\<in>set (descendants soup). ?link (here l)"
    by (simp_all add: find_first_None_iff)
  then have "\<exists>l\<in>set (descendants soup). is_tag (here l) \<and> ?link (here l)"
    by (metis is_tag.elims(3) node_name.simps(2) option.distinct(1))
  then obtain t where t: "find_first ?link soup = Some t"
    using find_first_exists [of soup ?link] by blast
  with find_first_SomeD [OF t] no_id no_name
  show "\<exists>t. find_target soup a = Some t \<and> t \<in> set (descendants soup) \<and>
           node_name (here t) = Some ''a'' \<and> has_attr ''href'' (''#'' @ a) (here t)"
    by (simp add: find_target_def)
qed

theorem anchor_resolution_priority_witness:
  "(\<exists>l\<in>set (descendants anchors_example). is_tag (here l) \<and> has_attr ''id'' ''x'' (here l))
   \<and> (\<exists>l\<in>set (descendants anchors_example). is_tag (here l) \<and> has_attr ''name'' ''x'' (here l))
   \<and> find_target anchors_example ''x''
       = Some (Located (anchors_example ! 2) (drop 3 anchors_example) None)
   \<and> has_attr ''id'' ''x'' (anchors_example ! 2)
   \<and> (\<exists>t. find_target anchors_example ''n'' = Some t \<and> has_attr ''name'' ''n'' (here t))
   \<and> (\<exists>t. find_target anchors_example ''fn'' = Some t \<and> node_name (here t) = Some ''a'' \<and>
           has_attr ''href'' ''#fn'' (here t))"
proof -
  have id_x: "\<exists>l\<in>set (descendants anchors_example). is_tag (here l) \<and> has_attr ''id'' ''x'' (here l)"
    by (simp add: descendants_def anchors_example_def has_attr_def)
  have name_x: "\<exists>l\<in>set (descendants anchors_example). is_tag (here l) \<and> has_attr ''name'' ''x'' (here l)"
    by (simp add: descendants_def anchors_example_def has_attr_def)
  have first_x: "find_first (has_attr ''id'' ''x'') anchors_example
       = Some (Located (anchors_example ! 2) (drop 3 anchors_example) None)"
    by (simp add: find_first_def descendants_def anchors_example_def has_attr_def)
  have only_name_n:
    "\<not> (\<exists>l\<in>set (descendants anchors_example). is_tag (here l) \<and> has_attr ''id'' ''n'' (here l)) \<and>
      (\<exists>l\<in>set (descendants anchors_example). is_tag (here l) \<and> has_attr ''name'' ''n'' (here l))"
    by (simp add: descendants_def anchors_example_def has_attr_def)
  have only_href_fn:
    "\<not> (\<exists>l\<in>set (descendants anchors_example). is_tag (here l) \<and> has_attr ''id'' ''fn'' (here l)) \<and>
     \<not> (\<exists>l\<in>set (descendants anchors_example). is_tag (here l) \<and> has_attr ''name'' ''fn'' (here l)) \<and>
      (\<exists>l\<in>set (descendants anchors_example).
          node_name (here l) = Some ''a'' \<and> has_attr ''href'' (''#'' @ ''fn'') (here l))"
    by (simp add: descendants_def anchors_example_def has_attr_def)
  have x: "find_target anchors_example ''x''
       = Some (Located (anchors_example ! 2) (drop 3 anchors_example) None)"
    using anchor_resolution_priority [of "''x''" anchors_example] id_x first_x by auto
  have "has_attr ''id'' ''x'' (anchors_example ! 2)"
    by (simp add: anchors_example_def has_attr_def)
  moreover have "\<exists>t. find_target anchors_example ''n'' = Some t \<and> has_attr ''name'' ''n'' (here t)"
    using anchor_resolution_priority [of "''n''" anchors_example] only_name_n by blast
  moreover have "\<exists>t. find_target anchors_example ''fn'' = Some t \<and> node_name (here t) = Some ''a'' \<and>
           has_attr ''href'' ''#fn'' (here t)"
    using anchor_resolution_priority [of "''fn''" anchors_example] only_href_fn by auto
  ultimately show ?thesis using id_x name_x x by blast
qed

section \<open>The book cache\<close>

lemma lru_cache_call_stores:
  assumes "lru_cache_call f k c = (r, c')"
  shows "map_of (entries c') k = Some r"
  using assms
  by (auto simp: lru_cache_call_def maxsize_def Let_def split: option.splits)

lemma lru_cache_call_hit:
  assumes "map_of (entries c) k = Some r"
  shows "lru_cache_call f k c =
           (r, c\<lparr>entries := (k, r) # filter (\<lambda>e. fst e \<noteq> k) (entries c), hits := hits c + 1\<rparr>)"
  using assms by (simp add: lru_cache_call_def)

lemma take_keeps:
  "length xs < n \<Longrightarrow> take n (xs @ y # ys) = xs @ y # take (n - Suc (length xs)) ys"
  by (simp add: take_Cons')

lemma retained_lookup:
  assumes "retained k v S c"
  shows "map_of (entries c) k = Some v"
proof -
  obtain pre post where e: "entries c = pre @ (k, v) # post" and k: "k \<notin> fst ` set pre"
    using assms unfolding retained_def by blast
  from k have "map_of pre k = None" by (simp add: map_of_eq_None_iff)
  with e show ?thesis by (simp add: map_add_def)
qed

lemma retained_after_call:
  assumes "lru_cache_call f k c = (v, c')"
  shows "retained k v {} c'"
proof -
  have "\<exists>post. entries c' = [] @ (k, v) # post"
    using assms
    by (auto simp: lru_cache_call_def maxsize_def Let_def split: option.splits)
  then show ?thesis unfolding retained_def by fastforce
qed

lemma retained_step:
  assumes inv: "retained k v S c"
    and "finite S"
    and neq: "j \<noteq> k"
    and room: "card (insert j S) < maxsize"
  shows "retained k v (insert j S) (snd (lru_cache_call f j c))"
proof -
  obtain pre post where e: "entries c = pre @ (k, v) # post" and k: "k \<notin> fst ` set pre"
    and d: "distinct (map fst pre)" and sub: "fst ` set pre \<subseteq> S"
    using inv unfolding retained_def by blast
  show ?thesis
  proof (cases "map_of (entries c) j")
    case (Some r)
    let ?pre = "(j, r) # filter (\<lambda>e. fst e \<noteq> j) pre"
    have "entries (snd (lru_cache_call f j c)) = ?pre @ (k, v) # filter (\<lambda>e. fst e \<noteq> j) post"
      using Some e neq by (simp add: lru_cache_call_def)
    moreover have "k \<notin> fst ` set ?pre" using k neq by auto
    moreover have "distinct (map fst ?pre)" using d by (auto simp: distinct_map_filter)
    moreover have "fst ` set ?pre \<subseteq> insert j S" using sub by auto
    ultimately show ?thesis unfolding retained_def by blast
  next
    case None
    let ?r = "f j"
    let ?pre = "(j, ?r) # pre"
    from None e have fresh: "j \<notin> fst ` set pre"
      by (auto simp: map_of_eq_None_iff)
    have "card (fst ` set ?pre) \<le> card (insert j S)"
      using sub \<open>finite S\<close> by (intro card_mono) auto
    moreover have "card (fst ` set ?pre) = length ?pre"
      using d fresh distinct_card [of "map fst ?pre"] by simp
    ultimately have len: "length ?pre < maxsize" using room by simp
    have "entries (snd (lru_cache_call f j c)) = take maxsize ((j, ?r) # entries c)"
      using None by (simp add: lru_cache_call_def Let_def)
    then have "entries (snd (lru_cache_call f j c)) = take maxsize (?pre @ (k, v) # post)"
      by (simp only: e append_Cons)
    also have "\<dots> = ?pre @ (k, v) # take (maxsize - Suc (length ?pre)) post"
      using len by (rule take_keeps)
    finally have "entries (snd (lru_cache_call f j c))
        = ?pre @ (k, v) # take (maxsize - Suc (length ?pre)) post" .
    moreover have "k \<notin> fst ` set ?pre" using k neq by auto
    moreover have "distinct (map fst ?pre)" using d fresh by simp
    moreover have "fst ` set ?pre \<subseteq> insert j S" using sub by auto
    ultimately show ?thesis unfolding retained_def by blast
  qed
qed

lemma retained_run:
  assumes "retained k v S c"
    and "finite S"
    and "k \<notin> (snd \<circ> snd) ` set calls"
    and "card (S \<union> (snd \<circ> snd) ` set calls) < maxsize"
  shows "retained k v (S \<union> (snd \<circ> snd) ` set calls) (load_books_cached calls c)"
  using assms
proof (induction calls arbitrary: S c)
  case Nil
  then show ?case by simp
next
  case (Cons call calls)
  obtain dir fs j where call: "call = (dir, fs, j)" by (cases call)
  have eq: "S \<union> (snd \<circ> snd) ` set (call # calls) = insert j S \<union> (snd \<circ> snd) ` set calls"
    using call by auto
  have "card (insert j S) \<le> card (insert j S \<union> (snd \<circ> snd) ` set calls)"
    using Cons.prems(2) by (intro card_mono) auto
  then have room: "card (insert j S) < maxsize"
    using Cons.prems(4) eq by simp
  have step: "retained k v (insert j S) (snd (load_book_cached dir fs j c))"
    unfolding load_book_cached_def
    using Cons.prems(1,2,3) room call by (intro retained_step) auto
  have "retained k v (insert j S \<union> (snd \<circ> snd) ` set calls)
          (load_books_cached calls (snd (load_book_cached dir fs j c)))"
    using step Cons.prems(2,3,4) eq by (intro Cons.IH) auto
  then show ?case using call eq by simp
qed

text \<open>
  C5, as the code has it. \<^verbatim>\<open>lru_cache\<close> stores whatever the wrapped function returns,
  and the loader returns \<open>None\<close> for a missing or unreadable archive instead of raising.
  So after a lookup that yields \<open>None\<close> the absence is an entry of the cache. As long as
  fewer than ten other identifiers have been looked up since, the entry is still there:
  a lookup of the same identifier is then a hit, returns \<open>None\<close> again and does not run
  the loader (the miss counter stays), whatever is on the disk by then.
\<close>

theorem loader_failure_is_remembered:
  assumes "load_book_cached dir1 fs1 k c = (None, c')"
    and "k \<notin> (snd \<circ> snd) ` set calls"
    and "card ((snd \<circ> snd) ` set calls) < maxsize"
  shows "fst (load_book_cached dir2 fs2 k (load_books_cached calls c')) = None
         \<and> misses (snd (load_book_cached dir2 fs2 k (load_books_cached calls c')))
             = misses (load_books_cached calls c')
         \<and> hits (snd (load_book_cached dir2 fs2 k (load_books_cached calls c')))
             = hits (load_books_cached calls c') + 1"
proof -
  have "retained k None {} c'"
    using assms(1) unfolding load_book_cached_def by (rule retained_after_call)
  then have "retained k None ({} \<union> (snd \<circ> snd) ` set calls) (load_books_cached calls c')"
    using assms(2,3) by (intro retained_run) simp_all
  then have "map_of (entries (load_books_cached calls c')) k = Some None"
    by (rule retained_lookup)
  then show ?thesis
    unfolding load_book_cached_def by (simp add: lru_cache_call_hit)
qed

theorem loader_failure_is_remembered_witness:
  "load_book_cached ''.'' Map.empty ''novel_data'' cache_clear
     = (None, \<lparr>entries = [(''novel_data'', None)], hits = 0, misses = 1\<rparr>)
   \<and> load_book_cached_wrapped ''.'' disk_example ''novel_data'' = Some book_example
   \<and> misses (load_books_cached [(''.'', disk_example, ''other_data'')]
         \<lparr>entries = [(''novel_data'', None)], hits = 0, misses = 1\<rparr>) = 2
   \<and> fst (load_book_cached ''.'' disk_example ''novel_data''
         (load_books_cached [(''.'', disk_example, ''other_data'')]
            \<lparr>entries = [(''novel_data'', None)], hits = 0, misses = 1\<rparr>)) = None
   \<and> misses (snd (load_book_cached ''.'' disk_example ''novel_data''
         (load_books_cached [(''.'', disk_example, ''other_data'')]
            \<lparr>entries = [(''novel_data'', None)], hits = 0, misses = 1\<rparr>))) = 2"
proof -
  let ?calls = "[(''.'', disk_example, ''other_data'')]"
  have h1: "load_book_cached ''.'' Map.empty ''novel_data'' cache_clear
     = (None, \<lparr>entries = [(''novel_data'', None)], hits = 0, misses = 1\<rparr>)"
    by (simp add: load_book_cached_def lru_cache_call_def cache_clear_def
        load_book_cached_wrapped_def maxsize_def)
  have h2: "''novel_data'' \<notin> (snd \<circ> snd) ` set ?calls" by simp
  have h3: "card ((snd \<circ> snd) ` set ?calls) < maxsize" by (simp add: maxsize_def)
  have loadable: "load_book_cached_wrapped ''.'' disk_example ''novel_data'' = Some book_example"
    by (simp add: load_book_cached_wrapped_def disk_example_def)
  have between: "misses (load_books_cached ?calls
         \<lparr>entries = [(''novel_data'', None)], hits = 0, misses = 1\<rparr>) = 2"
    by (simp add: load_book_cached_def lru_cache_call_def load_book_cached_wrapped_def
        maxsize_def disk_example_def Let_def)
  show ?thesis
    using h1 loadable between
      loader_failure_is_remembered [OF h1 h2 h3, of "''.''" disk_example]
    by simp
qed

text \<open>
  The bound is the cache's size: after lookups of ten other identifiers the entry has
  been dropped as the least recently used, and the lookup runs the loader again.
\<close>

lemma negative_entry_evicted_example:
  "fst (load_book_cached ''.'' disk_example ''novel_data''
     (load_books_cached
        [(''.'', disk_example, ''b0''), (''.'', disk_example, ''b1''), (''.'', disk_example, ''b2''),
         (''.'', disk_example, ''b3''), (''.'', disk_example, ''b4''), (''.'', disk_example, ''b5''),
         (''.'', disk_example, ''b6''), (''.'', disk_example, ''b7''), (''.'', disk_example, ''b8''),
         (''.'', disk_example, ''b9'')]
        \<lparr>entries = [(''novel_data'', None)], hits = 0, misses = 1\<rparr>)) = Some book_example"
  by (simp add: load_book_cached_def lru_cache_call_def load_book_cached_wrapped_def
        maxsize_def disk_example_def Let_def)

text \<open>
  C5 as stated fails: a first lookup of \<^verbatim>\<open>novel_data\<close> on an empty disk fails; the
  archive then appears, and the loader would now return the book; the second lookup still
  returns \<open>None\<close>, and the loader has run once in all.
\<close>

theorem negative_entry_counterexample:
  "fst (load_book_cached ''.'' Map.empty ''novel_data'' cache_clear) = None
   \<and> load_book_cached_wrapped ''.'' disk_example ''novel_data'' = Some book_example
   \<and> fst (load_book_cached ''.'' disk_example ''novel_data''
            (snd (load_book_cached ''.'' Map.empty ''novel_data'' cache_clear))) = None
   \<and> misses (snd (load_book_cached ''.'' Map.empty ''novel_data'' cache_clear)) = 1
   \<and> misses (snd (load_book_cached ''.'' disk_example ''novel_data''
            (snd (load_book_cached ''.'' Map.empty ''novel_data'' cache_clear)))) = 1"
  by (simp add: load_book_cached_def lru_cache_call_def cache_clear_def
      load_book_cached_wrapped_def maxsize_def disk_example_def)

section \<open>Navigation and the chapter request\<close>

text \<open>
  C7. The previous index is \<open>i - 1\<close> when \<open>i > 0\<close> and absent otherwise; the next index
  is \<open>i + 1\<close> when \<open>i < N - 1\<close> and absent otherwise. So there is no previous index
  at 0 and no next index at \<open>N - 1\<close>, and strictly between the two both exist and the
  next index of the previous index is \<open>i\<close> again.
\<close>

theorem navigation_indices:
  "prev_idx_of i = (if i > 0 then Some (i - 1) else None)
   \<and> next_idx_of i N = (if i < N - 1 then Some (i + 1) else None)
   \<and> prev_idx_of 0 = None
   \<and> next_idx_of (N - 1) N = None
   \<and> (0 < i \<and> i < N - 1 \<longrightarrow>
        (\<exists>p n. prev_idx_of i = Some p \<and> next_idx_of i N = Some n \<and> next_idx_of p N = Some i))"
  by (simp add: prev_idx_of_def next_idx_of_def)

theorem navigation_indices_witness:
  "(0::int) < 1 \<and> (1::int) < 3 - 1
   \<and> prev_idx_of 1 = Some 0 \<and> next_idx_of 1 3 = Some 2 \<and> next_idx_of 0 3 = Some 1
   \<and> prev_idx_of 0 = None \<and> next_idx_of (3 - 1) 3 = None"
  using navigation_indices [of 1 3] navigation_indices [of 0 3]
  by (simp add: prev_idx_of_def next_idx_of_def)

lemma read_chapter_loaded:
  assumes "load_book_cached (books_dir env) (disk env) bid c = (Some b, c')"
  shows "read_chapter env req bid idx c =
     (if idx < 0 \<or> idx \<ge> int (length (spine b)) then
        (Inl (HTTPException 404 ''Chapter not found''), c')
      else
        (Inr \<lparr>request = req, book = b,
              current_chapter =
                (case build_subsection_content (html_parser env) (str_of env)
                        (content (spine b ! nat idx)) (query_params req ''anchor'') of
                   Some sub \<Rightarrow>
                     \<lparr>id_field = id_field (spine b ! nat idx), href = href (spine b ! nat idx),
                      title = title (spine b ! nat idx), content = sub,
                      text_field = text_field (spine b ! nat idx),
                      order = order (spine b ! nat idx)\<rparr>
                 | None \<Rightarrow> spine b ! nat idx),
              chapter_index = idx, book_id = bid, prev_idx = prev_idx_of idx,
              next_idx = next_idx_of idx (int (length (spine b))),
              anchor = query_params req ''anchor'',
              is_subsection =
                (build_subsection_content (html_parser env) (str_of env)
                   (content (spine b ! nat idx)) (query_params req ''anchor'') \<noteq> None)\<rparr>, c'))"
  using assms by (simp add: read_chapter_def Let_def)

lemma read_chapter_not_loaded:
  assumes "load_book_cached (books_dir env) (disk env) bid c = (None, c')"
  shows "read_chapter env req bid idx c = (Inl (HTTPException 404 ''Book not found''), c')"
  using assms by (simp add: read_chapter_def)

lemma load_example:
  "load_book_cached (books_dir env_example) (disk env_example) ''novel_data'' cache_clear
     = (Some book_example, \<lparr>entries = [(''novel_data'', Some book_example)], hits = 0, misses = 1\<rparr>)"
  by (simp add: load_book_cached_def lru_cache_call_def cache_clear_def
      load_book_cached_wrapped_def maxsize_def disk_example_def env_example_def Let_def)

lemma length_spine_example: "length (spine book_example) = 3"
  by (simp add: book_example_def)

text \<open>
  C8. For a book that loads, a chapter index below zero or at least the spine's length
  makes the request end in the 404 error \<^verbatim>\<open>Chapter not found\<close>: an error value, and no
  chapter is read.
\<close>

theorem out_of_range_chapter_not_found:
  assumes "fst (load_book_cached (books_dir env) (disk env) bid c) = Some b"
    and "idx < 0 \<or> idx \<ge> int (length (spine b))"
  shows "fst (read_chapter env req bid idx c) = Inl (HTTPException 404 ''Chapter not found'')"
proof -
  obtain c' where "load_book_cached (books_dir env) (disk env) bid c = (Some b, c')"
    using assms(1) by (cases "load_book_cached (books_dir env) (disk env) bid c") simp
  from read_chapter_loaded [OF this] assms(2) show ?thesis by auto
qed

theorem out_of_range_chapter_not_found_witness:
  "fst (read_chapter env_example request_example ''novel_data'' 3 cache_clear)
     = Inl (HTTPException 404 ''Chapter not found'')
   \<and> fst (read_chapter env_example request_example ''novel_data'' (- 1) cache_clear)
     = Inl (HTTPException 404 ''Chapter not found'')"
proof -
  have h1: "fst (load_book_cached (books_dir env_example) (disk env_example) ''novel_data''
              cache_clear) = Some book_example"
    by (simp add: load_example)
  have h2: "(3::int) < 0 \<or> 3 \<ge> int (length (spine book_example))"
    by (simp add: length_spine_example)
  have h3: "(- 1::int) < 0 \<or> - 1 \<ge> int (length (spine book_example))"
    by simp
  show ?thesis
    using out_of_range_chapter_not_found [OF h1 h2] out_of_range_chapter_not_found [OF h1 h3]
    by simp
qed

text \<open>
  C9. Whenever extraction succeeds on the content of the requested chapter, the request
  succeeds and the chapter handed to the template is a new value with the identifier,
  href, title, text and order of the spine's chapter and the subsection as its content.
  The book in the response and in the cache is the loaded one, whose chapter is as it
  was: a later lookup returns the same book.
\<close>

theorem copy_on_narrow:
  assumes "fst (load_book_cached (books_dir env) (disk env) bid c) = Some b"
    and "0 \<le> idx" and "idx < int (length (spine b))"
    and "build_subsection_content (html_parser env) (str_of env)
           (content (spine b ! nat idx)) (query_params req ''anchor'') = Some sub"
  shows "\<exists>ctx c'.
           read_chapter env req bid idx c = (Inr ctx, c') \<and>
           is_subsection ctx \<and>
           current_chapter ctx = (spine b ! nat idx)\<lparr>content := sub\<rparr> \<and>
           id_field (current_chapter ctx) = id_field (spine b ! nat idx) \<and>
           href (current_chapter ctx) = href (spine b ! nat idx) \<and>
           title (current_chapter ctx) = title (spine b ! nat idx) \<and>
           order (current_chapter ctx) = order (spine b ! nat idx) \<and>
           text_field (current_chapter ctx) = text_field (spine b ! nat idx) \<and>
           content (current_chapter ctx) = sub \<and>
           book ctx = b \<and>
           map_of (entries c') bid = Some (Some b) \<and>
           fst (load_book_cached dir2 fs2 bid c') = Some b"
proof -
  obtain c1 where load: "load_book_cached (books_dir env) (disk env) bid c = (Some b, c1)"
    using assms(1) by (cases "load_book_cached (books_dir env) (disk env) bid c") simp
  have stored: "map_of (entries c1) bid = Some (Some b)"
    using load [unfolded load_book_cached_def] by (rule lru_cache_call_stores)
  then have again: "fst (load_book_cached dir2 fs2 bid c1) = Some b"
    by (simp add: load_book_cached_def lru_cache_call_hit)
  let ?ctx = "\<lparr>request = req, book = b,
      current_chapter =
        \<lparr>id_field = id_field (spine b ! nat idx), href = href (spine b ! nat idx),
         title = title (spine b ! nat idx), content = sub,
         text_field = text_field (spine b ! nat idx), order = order (spine b ! nat idx)\<rparr>,
      chapter_index = idx, book_id = bid, prev_idx = prev_idx_of idx,
      next_idx = next_idx_of idx (int (length (spine b))),
      anchor = query_params req ''anchor'', is_subsection = True\<rparr>"
  have rc: "read_chapter env req bid idx c = (Inr ?ctx, c1)"
    using read_chapter_loaded [OF load, of req idx] assms(2-4) by simp
  show ?thesis
    using rc stored again
    by (intro exI [of _ ?ctx] exI [of _ c1]) simp
qed

theorem copy_on_narrow_witness:
  "\<exists>ctx c'.
     read_chapter env_example request_example ''novel_data'' 1 cache_clear = (Inr ctx, c') \<and>
     is_subsection ctx \<and>
     current_chapter ctx =
       \<lparr>id_field = ''c1'', href = ''c1.html'', title = ''One'',
        content = concat (map to_html (take 4 (drop 1 chapter_example))),
        text_field = ''Preface A one B two C'', order = 1\<rparr> \<and>
     book ctx = book_example \<and>
     content (spine book_example ! 1) = chapter_html \<and>
     map_of (entries c') ''novel_data'' = Some (Some book_example)"
proof -
  have sub: "build_subsection_content chapter_parser to_html chapter_html (Some ''a'')
               = Some (concat (map to_html (take 4 (drop 1 chapter_example))))"
    by (simp add: build_subsection_content_def chapter_parser_def find_target_def find_first_def
      descendants_def chapter_example_def has_attr_def section_nodes_def section_start_def
      find_parent_def get_heading_level_def heading_levels_def py_int_digit_def)
  have chap: "spine book_example ! Suc 0 =
      \<lparr>id_field = ''c1'', href = ''c1.html'', title = ''One'', content = chapter_html,
          text_field = ''Preface A one B two C'', order = 1\<rparr>"
    by (simp add: book_example_def)
  have params: "html_parser env_example = chapter_parser" "str_of env_example = to_html"
    "query_params request_example ''anchor'' = Some ''a''"
    by (simp_all add: env_example_def request_example_def)
  have h1: "fst (load_book_cached (books_dir env_example) (disk env_example) ''novel_data''
              cache_clear) = Some book_example"
    by (simp add: load_example)
  have h2: "(0::int) \<le> 1" by simp
  have h3: "(1::int) < int (length (spine book_example))"
    by (simp add: length_spine_example)
  have h4: "build_subsection_content (html_parser env_example) (str_of env_example)
           (content (spine book_example ! nat 1)) (query_params request_example ''anchor'')
           = Some (concat (map to_html (take 4 (drop 1 chapter_example))))"
    using sub by (simp add: chap params)
  obtain ctx c' where
    "read_chapter env_example request_example ''novel_data'' 1 cache_clear = (Inr ctx, c')"
    "is_subsection ctx"
    "current_chapter ctx = (spine book_example ! nat 1)
       \<lparr>content := concat (map to_html (take 4 (drop 1 chapter_example)))\<rparr>"
    "book ctx = book_example"
    "map_of (entries c') ''novel_data'' = Some (Some book_example)"
    using copy_on_narrow [OF h1 h2 h3 h4, of "''.''" Map.empty] by blast
  then show ?thesis
    by (intro exI [of _ ctx] exI [of _ c']) (simp add: chap)
qed


text \<open>
  C6. Extraction returns \<open>None\<close> when the anchor is absent and when no element matches
  the anchor by id, by name or as the target of a link; it has no error result. The
  request then carries the spine's chapter itself, unnarrowed, and is not marked as a
  subsection.
\<close>

theorem unresolved_anchor_falls_back:
  "build_subsection_content parse str_node html None = None
   \<and> ((\<forall>l\<in>set (descendants (parse html)).
          \<not> (is_tag (here l) \<and>
             (has_attr ''id'' a (here l) \<or> has_attr ''name'' a (here l) \<or>
              (node_name (here l) = Some ''a'' \<and> has_attr ''href'' (''#'' @ a) (here l))))) \<longrightarrow>
        build_subsection_content parse str_node html (Some a) = None)
   \<and> (fst (load_book_cached (books_dir env) (disk env) bid c) = Some b \<and>
       0 \<le> idx \<and> idx < int (length (spine b)) \<and>
       build_subsection_content (html_parser env) (str_of env)
         (content (spine b ! nat idx)) (query_params req ''anchor'') = None \<longrightarrow>
       (\<exists>ctx. fst (read_chapter env req bid idx c) = Inr ctx \<and>
              current_chapter ctx = spine b ! nat idx \<and> \<not> is_subsection ctx))"
proof (intro conjI impI)
  show "build_subsection_content parse str_node html None = None"
    by (simp add: build_subsection_content_def)
next
  assume none: "\<forall>l\<in>set (descendants (parse html)).
          \<not> (is_tag (here l) \<and>
             (has_attr ''id'' a (here l) \<or> has_attr ''name'' a (here l) \<or>
              (node_name (here l) = Some ''a'' \<and> has_attr ''href'' (''#'' @ a) (here l))))"
  have "find_first (has_attr ''id'' a) (parse html) = None"
    and "find_first (has_attr ''name'' a) (parse html) = None"
    and "find_first (\<lambda>n. node_name n = Some ''a'' \<and> has_attr ''href'' (''#'' @ a) n) (parse html)
           = None"
    using none by (auto simp: find_first_None_iff)
  then have "find_target (parse html) a = None"
    by (simp add: find_target_def)
  then show "build_subsection_content parse str_node html (Some a) = None"
    by (simp add: build_subsection_content_def)
next
  assume h: "fst (load_book_cached (books_dir env) (disk env) bid c) = Some b \<and>
       0 \<le> idx \<and> idx < int (length (spine b)) \<and>
       build_subsection_content (html_parser env) (str_of env)
         (content (spine b ! nat idx)) (query_params req ''anchor'') = None"
  then obtain c' where "load_book_cached (books_dir env) (disk env) bid c = (Some b, c')"
    by (cases "load_book_cached (books_dir env) (disk env) bid c") simp
  from read_chapter_loaded [OF this, of req idx] h
  show "\<exists>ctx. fst (read_chapter env req bid idx c) = Inr ctx \<and>
              current_chapter ctx = spine b ! nat idx \<and> \<not> is_subsection ctx"
    by simp
qed

theorem unresolved_anchor_falls_back_witness:
  "build_subsection_content chapter_parser to_html chapter_html None = None
   \<and> build_subsection_content chapter_parser to_html chapter_html (Some ''zzz'') = None
   \<and> (\<exists>ctx. fst (read_chapter env_example \<lparr>query_params = [''anchor'' \<mapsto> ''zzz'']\<rparr>
                     ''novel_data'' 1 cache_clear) = Inr ctx \<and>
             current_chapter ctx = spine book_example ! nat 1 \<and> \<not> is_subsection ctx)"
proof -
  have none: "\<forall>l\<in>set (descendants (chapter_parser chapter_html)).
          \<not> (is_tag (here l) \<and>
             (has_attr ''id'' ''zzz'' (here l) \<or> has_attr ''name'' ''zzz'' (here l) \<or>
              (node_name (here l) = Some ''a'' \<and> has_attr ''href'' (''#'' @ ''zzz'') (here l))))"
    by (simp add: chapter_parser_def descendants_def chapter_example_def has_attr_def)
  note inst = unresolved_anchor_falls_back [of chapter_parser to_html chapter_html "''zzz''"
      env_example "''novel_data''" cache_clear book_example 1
      "\<lparr>query_params = [''anchor'' \<mapsto> ''zzz'']\<rparr>"]
  have sub: "build_subsection_content chapter_parser to_html chapter_html (Some ''zzz'') = None"
    using inst none by blast
  have chap: "content (spine book_example ! Suc 0) = chapter_html"
    by (simp add: book_example_def)
  have params: "html_parser env_example = chapter_parser" "str_of env_example = to_html"
    by (simp_all add: env_example_def)
  have h: "fst (load_book_cached (books_dir env_example) (disk env_example) ''novel_data''
              cache_clear) = Some book_example \<and>
       0 \<le> (1::int) \<and> 1 < int (length (spine book_example)) \<and>
       build_subsection_content (html_parser env_example) (str_of env_example)
         (content (spine book_example ! nat 1))
         (query_params \<lparr>query_params = [''anchor'' \<mapsto> ''zzz'']\<rparr> ''anchor'') = None"
    using sub chap by (simp add: load_example length_spine_example params)
  show ?thesis
    using inst sub h by blast
qed


text \<open>
  C10. With the empty string as anchor, extraction returns \<open>None\<close> for every chapter
  HTML string, exactly as with an absent anchor.
\<close>

theorem empty_anchor_is_absent:
  "build_subsection_content parse str_node html (Some '''') = None
   \<and> build_subsection_content parse str_node html (Some '''')
       = build_subsection_content parse str_node html None"
  by (simp add: build_subsection_content_def)

end
